theory Spec2Isabelle
  imports Main "HOL-Library.Word"
begin

unbundle bit_operations_syntax

section \<open>Build constants\<close>

text \<open>
  The sources under verification are \<^verbatim>\<open>firmware/bootloader/lib/uart.c\<close> and
  \<^verbatim>\<open>firmware/bootloader/lib/protocol.c\<close>. Their headers (\<^verbatim>\<open>uart.h\<close>,
  \<^verbatim>\<open>protocol.h\<close>), the device header and the memory map are not part of the
  sources, so the numeric macros the code reads from them are fields of the record below
  (the packet status codes and the two EEPROM addresses are datatypes further down) and
  every function of the model that reads one takes the record as its first argument.
  Theorems hold for all values of the fields unless a hypothesis says otherwise.
\<close>

record build =
  UART_RX_QUEUE_SIZE :: nat
  PROTOCOL_CONTROL_PACKET_SIZE :: "8 word"
  PROTOCOL_DATA_INDEX_BEGIN :: "8 word"
  PROTOCOL_CMD_WRITE_DATA_RESPONSE_OK :: "8 word"
  PROTOCOL_CMD_WRITE_DATA_RESPONSE_ERR :: "8 word"
  PROTOCOL_CMD_WRITE_SN_RESPONSE_OK :: "8 word"
  PROTOCOL_CMD_WRITE_SN_RESPONSE_ERR :: "8 word"
  BOOTLOADER_BOOTLOADER_START :: "32 word"
  BOOTLOADER_APPLICATION_START :: "32 word"
  BOOTLOADER_APPLICATION_END :: "32 word"
  FLASH_ROW :: "32 word"

text \<open>
  Modelled from the spec: the values of the macros of the missing headers. The spec gives
  the control overhead of a frame as 2 (one command byte and one length byte) and uses it
  both where the encoder adds \<^verbatim>\<open>PROTOCOL_DATA_INDEX_BEGIN\<close> and where the decoder
  subtracts \<^verbatim>\<open>PROTOCOL_CONTROL_PACKET_SIZE\<close>; 2 is also the index at which the
  encoder's copy loop starts. The spec leaves the queue capacity, the opcodes and the
  memory map to the device; the values below are one page-aligned example
  (a page is \<^verbatim>\<open>_FLASH_ROW * 16\<close> = 0x800 addresses).
\<close>

definition spec_build :: build where
  "spec_build =
     \<lparr> UART_RX_QUEUE_SIZE = 255,
       PROTOCOL_CONTROL_PACKET_SIZE = 2,
       PROTOCOL_DATA_INDEX_BEGIN = 2,
       PROTOCOL_CMD_WRITE_DATA_RESPONSE_OK = 0x04,
       PROTOCOL_CMD_WRITE_DATA_RESPONSE_ERR = 0x05,
       PROTOCOL_CMD_WRITE_SN_RESPONSE_OK = 0x0A,
       PROTOCOL_CMD_WRITE_SN_RESPONSE_ERR = 0x0B,
       BOOTLOADER_BOOTLOADER_START = 0x1000,
       BOOTLOADER_APPLICATION_START = 0x1800,
       BOOTLOADER_APPLICATION_END = 0x5000,
       FLASH_ROW = 128 \<rparr>"

section \<open>Circular byte transport (uart.c)\<close>

text \<open>
  \<^verbatim>\<open>UART_t\<close>: the receive queue is an array of \<^verbatim>\<open>UART_RX_QUEUE_SIZE\<close> bytes with
  two cursors and an occupancy count. The widths of the three counters are declared in the
  missing header; they are natural numbers here, wide enough for the value
  \<^verbatim>\<open>UART_RX_QUEUE_SIZE + 1\<close> that the code compares the occupancy with. The
  peripheral is represented by what the code observes of it: \<open>txWire\<close> is the sequence
  of bytes stored to the transmit register.
\<close>

record UART_t =
  rxQueue :: "8 word list"
  rxQueueSize :: nat
  rxQueueReadCursor :: nat
  rxQueueWriteCursor :: nat
  rxLastTimestamp :: "32 word"
  txWire :: "8 word list"

text \<open>
  One byte waiting in the receive FIFO of the peripheral: the value of the status
  register while it is waiting, the byte, and what \<^verbatim>\<open>TimerGetMillis()\<close> returns when
  it is taken.
\<close>

type_synonym rx_event = "16 word \<times> 8 word \<times> 32 word"

definition UARTGetNextByte :: "build \<Rightarrow> UART_t \<Rightarrow> 8 word \<times> UART_t" where
  "UARTGetNextByte k uart =
     (let data = rxQueue uart ! rxQueueReadCursor uart;
          uart1 = uart\<lparr>rxQueue := (rxQueue uart)[rxQueueReadCursor uart := 0x00]\<rparr>;
          uart2 = uart1\<lparr>rxQueueReadCursor := rxQueueReadCursor uart1 + 1\<rparr>;
          uart3 = (if rxQueueReadCursor uart2 \<ge> UART_RX_QUEUE_SIZE k
                   then uart2\<lparr>rxQueueReadCursor := 0\<rparr> else uart2);
          uart4 = (if rxQueueSize uart3 > 0
                   then uart3\<lparr>rxQueueSize := rxQueueSize uart3 - 1\<rparr> else uart3)
      in (data, uart4))"

text \<open>
  The loop of \<^verbatim>\<open>UARTGetOffsetByte\<close>: its local \<^verbatim>\<open>cursor\<close> is a \<^verbatim>\<open>uint8_t\<close>, so
  the read cursor is truncated to 8 bits when it is copied and the increment wraps at 256;
  the second argument counts the iterations left (the value of \<^verbatim>\<open>offset\<close>).
\<close>

fun offset_cursor :: "build \<Rightarrow> 8 word \<Rightarrow> nat \<Rightarrow> 8 word" where
  "offset_cursor k cursor 0 = cursor"
| "offset_cursor k cursor (Suc offset) =
     offset_cursor k (if unat (cursor + 1) \<ge> UART_RX_QUEUE_SIZE k then 0 else cursor + 1) offset"

definition UARTGetOffsetByte :: "build \<Rightarrow> UART_t \<Rightarrow> 8 word \<Rightarrow> 8 word" where
  "UARTGetOffsetByte k uart offset =
     rxQueue uart ! unat (offset_cursor k (of_nat (rxQueueReadCursor uart)) (unat offset))"

text \<open>
  \<^verbatim>\<open>UARTReadData\<close> runs while the peripheral reports a pending byte; the argument
  \<open>pending\<close> is the content of the hardware FIFO, one loop iteration per element.
\<close>

fun UARTReadData :: "build \<Rightarrow> rx_event list \<Rightarrow> UART_t \<Rightarrow> UART_t" where
  "UARTReadData k [] uart = uart"
| "UARTReadData k ((uxsta, byte, millis) # pending) uart =
     (let hasErr = (uxsta AND 0xE \<noteq> 0) in
      UARTReadData k pending
        (if rxQueueSize uart \<noteq> UART_RX_QUEUE_SIZE k + 1 \<and> \<not> hasErr then
           (let wc = (if rxQueueWriteCursor uart = UART_RX_QUEUE_SIZE k
                      then 0 else rxQueueWriteCursor uart)
            in uart\<lparr>rxQueue := (rxQueue uart)[wc := byte],
                    rxQueueWriteCursor := wc + 1,
                    rxQueueSize := rxQueueSize uart + 1,
                    rxLastTimestamp := millis\<rparr>)
         else uart))"

definition UARTResetRxQueue :: "UART_t \<Rightarrow> UART_t" where
  "UARTResetRxQueue uart =
     uart\<lparr>rxQueueSize := 0, rxQueueWriteCursor := 0, rxQueueReadCursor := 0\<rparr>"

definition UARTSendData :: "UART_t \<Rightarrow> 8 word list \<Rightarrow> 8 word \<Rightarrow> UART_t" where
  "UARTSendData uart data len =
     fold (\<lambda>i u. u\<lparr>txWire := txWire u @ [data ! i]\<rparr>) [0..<unat len] uart"

section \<open>Packet codec (protocol.c)\<close>

datatype packet_status =
  PROTOCOL_PACKET_STATUS_BAD
| PROTOCOL_PACKET_STATUS_INCOMPLETE
| PROTOCOL_PACKET_STATUS_OK

text \<open>
  \<^verbatim>\<open>ProtocolPacket_t\<close>; \<open>data\<close> is the whole payload array of the struct, of which the
  first \<open>dataSize\<close> cells are the payload.
\<close>

record ProtocolPacket_t =
  command :: "8 word"
  dataSize :: "8 word"
  data :: "8 word list"
  status :: packet_status

definition ProtocolValidatePacket ::
  "build \<Rightarrow> ProtocolPacket_t \<Rightarrow> 8 word \<Rightarrow> packet_status" where
  "ProtocolValidatePacket k packet validation =
     (let chk0 = command packet;
          chk1 = chk0 XOR (dataSize packet + PROTOCOL_CONTROL_PACKET_SIZE k);
          msgSize = dataSize packet;
          chk2 = fold (\<lambda>idx chk. chk XOR data packet ! idx) [0..<unat msgSize] chk1;
          chk3 = chk2 XOR validation
      in if chk3 = 0 then PROTOCOL_PACKET_STATUS_OK else PROTOCOL_PACKET_STATUS_BAD)"

text \<open>
  The payload loop of \<^verbatim>\<open>ProtocolProcessPacket\<close>: the first argument counts the
  iterations left, the second is the loop variable \<^verbatim>\<open>i\<close>.
\<close>

fun rx_payload ::
  "build \<Rightarrow> nat \<Rightarrow> nat \<Rightarrow> 8 word list \<Rightarrow> UART_t \<Rightarrow> 8 word list \<times> UART_t" where
  "rx_payload k 0 i d uart = (d, uart)"
| "rx_payload k (Suc n) i d uart =
     (if rxQueueSize uart > 0
      then (case UARTGetNextByte k uart of (b, uart') \<Rightarrow> rx_payload k n (i + 1) (d[i := b]) uart')
      else rx_payload k n (i + 1) (d[i := 0x00]) uart)"

text \<open>
  \<^verbatim>\<open>ProtocolProcessPacket\<close> returns a struct of which it has set only the status when
  no frame is decoded; \<open>uninit\<close> is the content of that stack object before the call.
\<close>

definition ProtocolProcessPacket ::
  "build \<Rightarrow> ProtocolPacket_t \<Rightarrow> UART_t \<Rightarrow> ProtocolPacket_t \<times> UART_t" where
  "ProtocolProcessPacket k uninit uart =
     (let packet = uninit\<lparr>status := PROTOCOL_PACKET_STATUS_INCOMPLETE\<rparr> in
      if rxQueueSize uart \<ge> 2 then
        if rxQueueSize uart = unat (UARTGetOffsetByte k uart 1) then
          (case UARTGetNextByte k uart of (cmd, uart1) \<Rightarrow>
           case UARTGetNextByte k uart1 of (len, uart2) \<Rightarrow>
           let packet1 = packet\<lparr>command := cmd,
                                dataSize := len - PROTOCOL_CONTROL_PACKET_SIZE k\<rparr> in
           case rx_payload k (unat (dataSize packet1)) 0 (data packet1) uart2 of (d, uart3) \<Rightarrow>
           let packet2 = packet1\<lparr>data := d\<rparr> in
           case UARTGetNextByte k uart3 of (validation, uart4) \<Rightarrow>
             (packet2\<lparr>status := ProtocolValidatePacket k packet2 validation\<rparr>, uart4))
        else (packet, uart)
      else (packet, uart))"

text \<open>
  \<^verbatim>\<open>ProtocolSendPacket\<close>: \<open>data\<close> is the memory the pointer argument points to and
  \<open>packet\<close> the variable-length array of \<^verbatim>\<open>length\<close> cells, every cell of which is
  assigned before it is sent when \<^verbatim>\<open>length\<close> is at least 2.
\<close>

definition ProtocolSendPacket ::
  "build \<Rightarrow> UART_t \<Rightarrow> 8 word \<Rightarrow> 8 word list \<Rightarrow> 8 word \<Rightarrow> UART_t" where
  "ProtocolSendPacket k uart cmd dat dataSize0 =
     (let nullData = (dataSize0 = 0);
          dataSize1 = (if dataSize0 = 0 then 1 else dataSize0);
          crc0 = (0 :: 8 word);
          len = dataSize1 + PROTOCOL_DATA_INDEX_BEGIN k;
          packet0 = replicate (unat len) (0 :: 8 word);
          crc1 = crc0 XOR cmd;
          crc2 = crc1 XOR len;
          packet1 = packet0[0 := cmd];
          packet2 = packet1[1 := len];
          (packet3, crc3) =
            (if nullData then (packet2[2 := 0x00], crc2)
             else fold (\<lambda>i (p, crc). (p[i := dat ! (i - 2)], crc XOR dat ! (i - 2)))
                       [2..<unat len] (packet2, crc2));
          packet4 = packet3[unat len - 1 := crc3]
      in UARTSendData uart packet4 len)"

section \<open>Flash programming engine (protocol.c)\<close>

datatype flash_op =
  ErasePage "32 word"
| WriteDWORD "32 word" "32 word" "32 word"

text \<open>
  The non-volatile memory: \<open>cells\<close> maps a program-memory address to the instruction
  word stored there, \<open>oplog\<close> records every call of a flash primitive in order, and
  \<open>wfail\<close> is the set of addresses at which programming fails.
\<close>

record nvm =
  cells :: "32 word \<Rightarrow> 32 word"
  oplog :: "flash_op list"
  wfail :: "32 word set"

text \<open>
  Modelled from the spec: \<^verbatim>\<open>FlashErasePage\<close> and \<^verbatim>\<open>FlashWriteDWORDAddress\<close> live in
  \<^verbatim>\<open>flash.c\<close>, which is not part of the sources. Per the spec an erase blanks one
  fixed-size block (a page of \<^verbatim>\<open>_FLASH_ROW * 16\<close> addresses, the one that contains the
  address), a dual-word write commits two instruction words in one operation (at the
  address and at the address plus 2) and reports success as 1 or failure as 0.
\<close>

definition FlashErasePage :: "build \<Rightarrow> 32 word \<Rightarrow> nvm \<Rightarrow> nvm" where
  "FlashErasePage k address f =
     f\<lparr>cells := (\<lambda>x. if unat x div unat (FLASH_ROW k * 16) = unat address div unat (FLASH_ROW k * 16)
                      then 0xFFFFFF else cells f x),
       oplog := oplog f @ [ErasePage address]\<rparr>"

definition FlashWriteDWORDAddress ::
  "32 word \<Rightarrow> 32 word \<Rightarrow> 32 word \<Rightarrow> nvm \<Rightarrow> 8 word \<times> nvm" where
  "FlashWriteDWORDAddress address d1 d2 f =
     (if address \<in> wfail f
      then (0, f\<lparr>oplog := oplog f @ [WriteDWORD address d1 d2]\<rparr>)
      else (1, f\<lparr>cells := (cells f)(address := d1, address + 2 := d2),
                 oplog := oplog f @ [WriteDWORD address d1 d2]\<rparr>))"

text \<open>
  The page loop of \<^verbatim>\<open>ProtocolFlashErase\<close>. The address is a 32-bit counter compared
  with \<^verbatim>\<open>BOOTLOADER_APPLICATION_END\<close>, so the loop need not end for every memory map;
  the first argument is fuel, and running out of it is \<open>None\<close>.
\<close>

fun erase_loop :: "build \<Rightarrow> nat \<Rightarrow> 32 word \<Rightarrow> nvm \<Rightarrow> nvm option" where
  "erase_loop k 0 address f = None"
| "erase_loop k (Suc n) address f =
     (if address \<le> BOOTLOADER_APPLICATION_END k then
        erase_loop k n (address + FLASH_ROW k * 16)
          (if address < BOOTLOADER_BOOTLOADER_START k \<or> address \<ge> BOOTLOADER_APPLICATION_START k
           then FlashErasePage k address f else f)
      else Some f)"

definition ProtocolFlashErase :: "build \<Rightarrow> nat \<Rightarrow> nvm \<Rightarrow> nvm option" where
  "ProtocolFlashErase k fuel f =
     (let address = (0x00000000 :: 32 word);
          f1 = FlashErasePage k address f;
          resetInstruction = 0x40000 + BOOTLOADER_BOOTLOADER_START k;
          f2 = snd (FlashWriteDWORDAddress 0x00000000 resetInstruction 0x00000000 f1);
          address1 = address + FLASH_ROW k * 16
      in erase_loop k fuel address1 f2)"

definition protected_address :: "build \<Rightarrow> 32 word \<Rightarrow> bool" where
  "protected_address k address \<longleftrightarrow>
     (address \<ge> BOOTLOADER_BOOTLOADER_START k \<and> address < BOOTLOADER_APPLICATION_START k)
     \<or> address < 0x04"

definition word24 :: "8 word \<Rightarrow> 8 word \<Rightarrow> 8 word \<Rightarrow> 32 word" where
  "word24 b2 b1 b0 =
     push_bit 24 (0 :: 32 word) + push_bit 16 (ucast b2) + push_bit 8 (ucast b1) + ucast b0"

text \<open>
  The stride loop of \<^verbatim>\<open>ProtocolFlashWrite\<close>. \<^verbatim>\<open>index\<close> is an 8-bit counter that
  wraps, so the loop takes fuel as well. Besides the flash result and the memory it
  returns the indices of \<^verbatim>\<open>packet->data\<close> it has read, in order; \<^verbatim>\<open>index + 1\<close> to
  \<^verbatim>\<open>index + 5\<close> are computed in \<^verbatim>\<open>int\<close> and do not wrap.
\<close>

fun flash_write_loop ::
  "build \<Rightarrow> nat \<Rightarrow> ProtocolPacket_t \<Rightarrow> 32 word \<Rightarrow> 8 word \<Rightarrow> 8 word \<Rightarrow> nvm \<Rightarrow> nat list
     \<Rightarrow> (8 word \<times> nvm \<times> nat list) option" where
  "flash_write_loop k 0 packet address index flashRes f rd = None"
| "flash_write_loop k (Suc n) packet address index flashRes f rd =
     (if index < dataSize packet \<and> flashRes = 1 then
        if protected_address k address then
          flash_write_loop k n packet (address + 0x2) (index + 3) flashRes f rd
        else
          (let i = unat index;
               d1 = word24 (data packet ! i) (data packet ! (i + 1)) (data packet ! (i + 2));
               d2 = word24 (data packet ! (i + 3)) (data packet ! (i + 4)) (data packet ! (i + 5))
           in case FlashWriteDWORDAddress address d1 d2 f of (flashRes', f') \<Rightarrow>
                flash_write_loop k n packet (address + 0x04) (index + 6) flashRes' f'
                  (rd @ [i, i + 1, i + 2, i + 3, i + 4, i + 5]))
      else Some (flashRes, f, rd))"

definition ProtocolFlashWrite ::
  "build \<Rightarrow> nat \<Rightarrow> UART_t \<Rightarrow> ProtocolPacket_t \<Rightarrow> nvm \<Rightarrow> (UART_t \<times> nvm \<times> nat list) option" where
  "ProtocolFlashWrite k fuel uart packet f =
     (let address = word24 (data packet ! 0) (data packet ! 1) (data packet ! 2) in
      case (if address = 0x00000000 then ProtocolFlashErase k fuel f else Some f) of
        None \<Rightarrow> None
      | Some f1 \<Rightarrow>
          (case flash_write_loop k fuel packet address 3 1 f1 [0, 1, 2] of
             None \<Rightarrow> None
           | Some (flashRes, f2, rd) \<Rightarrow>
               Some (if flashRes = 1
                     then ProtocolSendPacket k uart (PROTOCOL_CMD_WRITE_DATA_RESPONSE_OK k) [] 0
                     else ProtocolSendPacket k uart (PROTOCOL_CMD_WRITE_DATA_RESPONSE_ERR k) [] 0,
                     f2, rd)))"

section \<open>Serial-number provisioning (protocol.c)\<close>

text \<open>
  Modelled from the spec: \<^verbatim>\<open>EEPROMReadByte\<close>, \<^verbatim>\<open>EEPROMWriteByte\<close> and the addresses
  \<^verbatim>\<open>CONFIG_SN_MSB\<close> and \<^verbatim>\<open>CONFIG_SN_LSB\<close> are not part of the sources. Per the spec
  the persisted state is two byte-wide cells, the most and the least significant byte of
  the serial number, read and written only by the provisioning operation.
\<close>

datatype eeprom_address = CONFIG_SN_MSB | CONFIG_SN_LSB

type_synonym eeprom = "eeprom_address \<Rightarrow> 8 word"

definition EEPROMReadByte :: "eeprom \<Rightarrow> eeprom_address \<Rightarrow> 8 word" where
  "EEPROMReadByte e a = e a"

definition EEPROMWriteByte :: "eeprom \<Rightarrow> eeprom_address \<Rightarrow> 8 word \<Rightarrow> eeprom" where
  "EEPROMWriteByte e a v = e(a := v)"

definition serial_number :: "eeprom \<Rightarrow> 16 word" where
  "serial_number e =
     push_bit 8 (ucast (EEPROMReadByte e CONFIG_SN_MSB))
       OR (ucast (EEPROMReadByte e CONFIG_SN_LSB) AND 0xFF)"

definition ProtocolWriteSerialNumber ::
  "build \<Rightarrow> UART_t \<Rightarrow> ProtocolPacket_t \<Rightarrow> eeprom \<Rightarrow> UART_t \<times> eeprom" where
  "ProtocolWriteSerialNumber k uart packet e =
     (let serialNumber = serial_number e in
      if serialNumber = 0x0 then
        (let e1 = EEPROMWriteByte e CONFIG_SN_MSB (data packet ! 0);
             e2 = EEPROMWriteByte e1 CONFIG_SN_LSB (data packet ! 1)
         in (ProtocolSendPacket k uart (PROTOCOL_CMD_WRITE_SN_RESPONSE_OK k) [] 0, e2))
      else (ProtocolSendPacket k uart (PROTOCOL_CMD_WRITE_SN_RESPONSE_ERR k) [] 0, e))"

section \<open>Observations and fixtures\<close>

text \<open>The dual-word writes of an operation log, in order.\<close>

fun dword_writes :: "flash_op list \<Rightarrow> (32 word \<times> 32 word \<times> 32 word) list" where
  "dword_writes [] = []"
| "dword_writes (ErasePage a # ops) = dword_writes ops"
| "dword_writes (WriteDWORD a d1 d2 # ops) = (a, d1, d2) # dword_writes ops"

text \<open>
  An empty transport (zeroed storage, cursors and occupancy 0, nothing sent), a packet
  object whose cells are all zero, and an erased memory on which every write succeeds.
\<close>

definition empty_uart :: "build \<Rightarrow> UART_t" where
  "empty_uart k =
     \<lparr> rxQueue = replicate (UART_RX_QUEUE_SIZE k) 0, rxQueueSize = 0, rxQueueReadCursor = 0,
       rxQueueWriteCursor = 0, rxLastTimestamp = 0, txWire = [] \<rparr>"

definition blank_packet :: ProtocolPacket_t where
  "blank_packet =
     \<lparr> command = 0, dataSize = 0, data = replicate 255 0, status = PROTOCOL_PACKET_STATUS_BAD \<rparr>"

definition blank_nvm :: nvm where
  "blank_nvm = \<lparr> cells = (\<lambda>_. 0xFFFFFF), oplog = [], wfail = {} \<rparr>"

text \<open>
  The bytes of a wire as they wait in the receive FIFO of the peer: data available
  (bit 0 of the status register), no error flag.
\<close>

definition on_wire :: "8 word list \<Rightarrow> rx_event list" where
  "on_wire bytes = map (\<lambda>b. (0x0001, b, 0)) bytes"

text \<open>
  Encoding a frame into an empty transport and decoding it: the bytes
  \<^verbatim>\<open>ProtocolSendPacket\<close> transmits are received by \<^verbatim>\<open>UARTReadData\<close> into an empty
  queue, from which \<^verbatim>\<open>ProtocolProcessPacket\<close> decodes.
\<close>

definition loopback :: "build \<Rightarrow> 8 word \<Rightarrow> 8 word list \<Rightarrow> ProtocolPacket_t \<times> UART_t" where
  "loopback k cmd payload =
     (let wire = txWire (ProtocolSendPacket k (empty_uart k) cmd payload (of_nat (length payload)))
      in ProtocolProcessPacket k blank_packet (UARTReadData k (on_wire wire) (empty_uart k)))"

text \<open>
  Interleavings of the producer and the consumer of the queue: \<open>Receive\<close> is one call
  of \<^verbatim>\<open>UARTReadData\<close> with the given bytes pending, \<open>Take\<close> one call of
  \<^verbatim>\<open>UARTGetNextByte\<close>. \<open>run_uart\<close> returns the bytes taken, in order, and the final
  state.
\<close>

datatype uart_op = Receive "rx_event list" | Take

fun run_uart :: "build \<Rightarrow> uart_op list \<Rightarrow> UART_t \<Rightarrow> 8 word list \<times> UART_t" where
  "run_uart k [] uart = ([], uart)"
| "run_uart k (Receive pending # ops) uart = run_uart k ops (UARTReadData k pending uart)"
| "run_uart k (Take # ops) uart =
     (case UARTGetNextByte k uart of (b, uart1) \<Rightarrow>
      case run_uart k ops uart1 of (bs, uart2) \<Rightarrow> (b # bs, uart2))"

text \<open>
  The reference the queue is compared with: a first-in first-out list of the bytes
  accepted (those received without an error flag). \<open>fifo_ok\<close> holds of an interleaving
  that never takes from an empty queue and never holds more than the capacity;
  \<open>fifo_run\<close> is what such an interleaving takes from the list.
\<close>

definition accepted :: "rx_event list \<Rightarrow> 8 word list" where
  "accepted pending = map (\<lambda>(uxsta, byte, millis). byte)
                         (filter (\<lambda>(uxsta, byte, millis). uxsta AND 0xE = 0) pending)"

fun fifo_ok :: "build \<Rightarrow> uart_op list \<Rightarrow> nat \<Rightarrow> bool" where
  "fifo_ok k [] n = True"
| "fifo_ok k (Receive pending # ops) n =
     (n + length (accepted pending) \<le> UART_RX_QUEUE_SIZE k
      \<and> fifo_ok k ops (n + length (accepted pending)))"
| "fifo_ok k (Take # ops) n = (n > 0 \<and> fifo_ok k ops (n - 1))"

fun fifo_run :: "uart_op list \<Rightarrow> 8 word list \<Rightarrow> 8 word list" where
  "fifo_run [] q = []"
| "fifo_run (Receive pending # ops) q = fifo_run ops (q @ accepted pending)"
| "fifo_run (Take # ops) q = hd q # fifo_run ops (tl q)"

text \<open>
  The packets of the scenarios below: the write request of the end-to-end scenario
  (address bytes 00 00 00, six data bytes), a write request to address 8 that carries
  one data byte, and a provisioning request with the given two bytes; and an EEPROM whose
  cells are zero.
\<close>

definition scenario_packet :: ProtocolPacket_t where
  "scenario_packet =
     blank_packet\<lparr>dataSize := 9,
                   data := [0x00, 0x00, 0x00, 0xAA, 0xBB, 0xCC, 0xDD, 0xEE, 0xFF] @ replicate 246 0\<rparr>"

definition short_packet :: ProtocolPacket_t where
  "short_packet =
     blank_packet\<lparr>dataSize := 4, data := [0x00, 0x00, 0x08, 0xAA] @ replicate 251 0\<rparr>"

definition sn_packet :: "8 word \<Rightarrow> 8 word \<Rightarrow> ProtocolPacket_t" where
  "sn_packet msb lsb = blank_packet\<lparr>dataSize := 2, data := [msb, lsb] @ replicate 253 0\<rparr>"

definition blank_eeprom :: eeprom where
  "blank_eeprom = (\<lambda>_. 0x00)"

text \<open>
  The relation between the queue and the first-in first-out list \<open>q\<close> of its unread
  bytes: the occupancy is the length of \<open>q\<close>, the write cursor is the read cursor plus the
  occupancy modulo the capacity, and the cells from the read cursor on hold \<open>q\<close>.
  \<open>cursors_in_range\<close> are the bounds that hold of every reachable state.
\<close>

definition queue_holds :: "build \<Rightarrow> UART_t \<Rightarrow> 8 word list \<Rightarrow> bool" where
  "queue_holds k uart q \<longleftrightarrow>
     length (rxQueue uart) = UART_RX_QUEUE_SIZE k
     \<and> rxQueueSize uart = length q
     \<and> length q \<le> UART_RX_QUEUE_SIZE k
     \<and> rxQueueReadCursor uart < UART_RX_QUEUE_SIZE k
     \<and> rxQueueWriteCursor uart \<le> UART_RX_QUEUE_SIZE k
     \<and> rxQueueWriteCursor uart mod UART_RX_QUEUE_SIZE k
         = (rxQueueReadCursor uart + length q) mod UART_RX_QUEUE_SIZE k
     \<and> map (\<lambda>i. rxQueue uart ! ((rxQueueReadCursor uart + i) mod UART_RX_QUEUE_SIZE k))
           [0..<length q] = q"

definition cursors_in_range :: "build \<Rightarrow> UART_t \<Rightarrow> bool" where
  "cursors_in_range k uart \<longleftrightarrow>
     rxQueueSize uart \<le> UART_RX_QUEUE_SIZE k + 1
     \<and> rxQueueReadCursor uart < UART_RX_QUEUE_SIZE k
     \<and> rxQueueWriteCursor uart \<le> UART_RX_QUEUE_SIZE k"

text \<open>
  A build with a queue of two cells, for traces short enough to follow by hand; the code
  treats every capacity alike.
\<close>

definition small_build :: build where
  "small_build = spec_build\<lparr>UART_RX_QUEUE_SIZE := 2\<rparr>"

section \<open>Circular byte transport: cursors and first-in first-out order\<close>

lemma mod_shift_neq:
  assumes "i < j" "j < (c :: nat)"
  shows "(r + i) mod c \<noteq> (r + j) mod c"
proof
  assume e: "(r + i) mod c = (r + j) mod c"
  have le: "r + i \<le> r + j" using assms(1) by simp
  from e have "(r + j) mod c = (r + i) mod c" by simp
  then have "c dvd (r + j) - (r + i)" using mod_eq_dvd_iff_nat [OF le, of c] by blast
  then have "c dvd j - i" by simp
  moreover have "0 < j - i" "j - i < c" using assms by simp_all
  ultimately show False by (simp add: nat_dvd_not_less)
qed

lemma queue_holds_nth:
  assumes "queue_holds k uart q" "i < length q"
  shows "rxQueue uart ! ((rxQueueReadCursor uart + i) mod UART_RX_QUEUE_SIZE k) = q ! i"
proof -
  from assms(1) have
    "map (\<lambda>i. rxQueue uart ! ((rxQueueReadCursor uart + i) mod UART_RX_QUEUE_SIZE k))
       [0..<length q] ! i = q ! i"
    by (simp add: queue_holds_def)
  with assms(2) show ?thesis by simp
qed

lemma cursors_in_range_push:
  "cursors_in_range k uart \<Longrightarrow> cursors_in_range k (UARTReadData k pending uart)"
proof (induction pending arbitrary: uart)
  case Nil
  then show ?case by simp
next
  case (Cons ev pending)
  obtain uxsta byte millis where ev: "ev = (uxsta, byte, millis)" by (cases ev)
  show ?case unfolding ev UARTReadData.simps Let_def
    by (rule Cons.IH) (use Cons.prems in \<open>auto simp: cursors_in_range_def\<close>)
qed

lemma cursors_in_range_pop:
  "cursors_in_range k uart \<Longrightarrow> cursors_in_range k (snd (UARTGetNextByte k uart))"
  by (auto simp: cursors_in_range_def UARTGetNextByte_def Let_def)

lemma cursors_in_range_run:
  "cursors_in_range k uart \<Longrightarrow> cursors_in_range k (snd (run_uart k ops uart))"
proof (induction ops arbitrary: uart)
  case Nil
  then show ?case by simp
next
  case (Cons op ops)
  show ?case
  proof (cases op)
    case (Receive pending)
    with Cons.IH [OF cursors_in_range_push [OF Cons.prems]] show ?thesis by simp
  next
    case Take
    obtain b uart1 where g: "UARTGetNextByte k uart = (b, uart1)" by fastforce
    with cursors_in_range_pop [OF Cons.prems] have "cursors_in_range k uart1" by simp
    from Cons.IH [OF this] Take g show ?thesis by (auto split: prod.splits)
  qed
qed

lemma queue_holds_receive_one:
  assumes h: "queue_holds k uart q" and room: "length q < UART_RX_QUEUE_SIZE k"
  shows "queue_holds k
           (uart\<lparr>rxQueue := (rxQueue uart)[(if rxQueueWriteCursor uart = UART_RX_QUEUE_SIZE k
                                                then 0 else rxQueueWriteCursor uart) := byte],
                  rxQueueWriteCursor := (if rxQueueWriteCursor uart = UART_RX_QUEUE_SIZE k
                                         then 0 else rxQueueWriteCursor uart) + 1,
                  rxQueueSize := rxQueueSize uart + 1,
                  rxLastTimestamp := millis\<rparr>)
           (q @ [byte])"
proof -
  let ?c = "UART_RX_QUEUE_SIZE k"
  let ?r = "rxQueueReadCursor uart"
  let ?w = "if rxQueueWriteCursor uart = ?c then 0 else rxQueueWriteCursor uart"
  from h have len: "length (rxQueue uart) = ?c" and sz: "rxQueueSize uart = length q"
    and rc: "?r < ?c" and wc: "rxQueueWriteCursor uart \<le> ?c"
    and wm: "rxQueueWriteCursor uart mod ?c = (?r + length q) mod ?c"
    by (simp_all add: queue_holds_def)
  from rc have c0: "0 < ?c" by simp
  have w: "?w = (?r + length q) mod ?c"
  proof (cases "rxQueueWriteCursor uart = ?c")
    case True
    with wm show ?thesis by simp
  next
    case False
    with wc have "rxQueueWriteCursor uart < ?c" by simp
    with wm False show ?thesis by simp
  qed
  have wlt: "?w < ?c" unfolding w using c0 by simp
  have wnext: "(?w + 1) mod ?c = (?r + (length q + 1)) mod ?c"
    unfolding w by (simp add: mod_Suc_eq)
  have cells: "(rxQueue uart)[?w := byte] ! ((?r + i) mod ?c) = (q @ [byte]) ! i"
    if i: "i < length q + 1" for i
  proof (cases "i < length q")
    case True
    with room have "(?r + i) mod ?c \<noteq> (?r + length q) mod ?c" by (intro mod_shift_neq)
    then have "(rxQueue uart)[?w := byte] ! ((?r + i) mod ?c) = rxQueue uart ! ((?r + i) mod ?c)"
      unfolding w by simp
    also have "\<dots> = q ! i" using h True by (rule queue_holds_nth)
    finally show ?thesis using True by (simp add: nth_append)
  next
    case False
    with i have e: "i = length q" by simp
    have "(rxQueue uart)[?w := byte] ! ?w = byte" using wlt len by simp
    then show ?thesis unfolding e w by simp
  qed
  have "map (\<lambda>i. (rxQueue uart)[?w := byte] ! ((?r + i) mod ?c)) [0..<length q + 1] = q @ [byte]"
    by (rule nth_equalityI) (simp_all add: cells del: upt_Suc)
  then show ?thesis
    using len sz room rc wlt wnext unfolding queue_holds_def by simp
qed

lemma queue_holds_receive:
  assumes "queue_holds k uart q"
    and "length q + length (accepted pending) \<le> UART_RX_QUEUE_SIZE k"
  shows "queue_holds k (UARTReadData k pending uart) (q @ accepted pending)"
  using assms
proof (induction pending arbitrary: uart q)
  case Nil
  then show ?case by (simp add: accepted_def)
next
  case (Cons ev pending)
  obtain uxsta byte millis where ev: "ev = (uxsta, byte, millis)" by (cases ev)
  show ?case
  proof (cases "uxsta AND 0xE = 0")
    case False
    then have a: "accepted (ev # pending) = accepted pending" by (simp add: accepted_def ev)
    have "UARTReadData k (ev # pending) uart = UARTReadData k pending uart"
      using False by (simp add: ev)
    with Cons.IH [OF Cons.prems(1)] Cons.prems(2) a show ?thesis by simp
  next
    case True
    then have a: "accepted (ev # pending) = byte # accepted pending" by (simp add: accepted_def ev)
    with Cons.prems(2) have room: "length q < UART_RX_QUEUE_SIZE k"
      and rest: "length (q @ [byte]) + length (accepted pending) \<le> UART_RX_QUEUE_SIZE k"
      by simp_all
    from Cons.prems(1) have sz: "rxQueueSize uart = length q" by (simp add: queue_holds_def)
    let ?u = "uart\<lparr>rxQueue := (rxQueue uart)[(if rxQueueWriteCursor uart = UART_RX_QUEUE_SIZE k
                                                then 0 else rxQueueWriteCursor uart) := byte],
                  rxQueueWriteCursor := (if rxQueueWriteCursor uart = UART_RX_QUEUE_SIZE k
                                         then 0 else rxQueueWriteCursor uart) + 1,
                  rxQueueSize := rxQueueSize uart + 1,
                  rxLastTimestamp := millis\<rparr>"
    have step: "UARTReadData k (ev # pending) uart = UARTReadData k pending ?u"
      using True room sz by (simp add: ev Let_def)
    from queue_holds_receive_one [OF Cons.prems(1) room]
    have "queue_holds k ?u (q @ [byte])" .
    from Cons.IH [OF this rest] show ?thesis unfolding step a by simp
  qed
qed

lemma queue_holds_take:
  assumes h: "queue_holds k uart q" and ne: "q \<noteq> []"
  shows "fst (UARTGetNextByte k uart) = hd q"
    and "queue_holds k (snd (UARTGetNextByte k uart)) (tl q)"
proof -
  let ?c = "UART_RX_QUEUE_SIZE k"
  let ?r = "rxQueueReadCursor uart"
  define r' where "r' = (if ?r + 1 \<ge> ?c then 0 else ?r + 1)"
  from h have len: "length (rxQueue uart) = ?c" and sz: "rxQueueSize uart = length q"
    and lq: "length q \<le> ?c"
    and rc: "?r < ?c" and wc: "rxQueueWriteCursor uart \<le> ?c"
    and wm: "rxQueueWriteCursor uart mod ?c = (?r + length q) mod ?c"
    by (simp_all add: queue_holds_def)
  from ne have pos: "0 < length q" by simp
  have r': "r' = (?r + 1) mod ?c"
  proof (cases "?r + 1 \<ge> ?c")
    case True
    with rc have "?r + 1 = ?c" by simp
    then show ?thesis by (simp add: r'_def)
  next
    case False
    then show ?thesis by (simp add: r'_def)
  qed
  have u': "snd (UARTGetNextByte k uart)
      = uart\<lparr>rxQueue := (rxQueue uart)[?r := 0x00], rxQueueReadCursor := r',
               rxQueueSize := length q - 1\<rparr>"
    using pos sz by (simp add: UARTGetNextByte_def Let_def r'_def)
  from queue_holds_nth [OF h pos] rc have "rxQueue uart ! ?r = q ! 0" by simp
  with ne show "fst (UARTGetNextByte k uart) = hd q"
    by (simp add: UARTGetNextByte_def Let_def hd_conv_nth)
  have wm': "rxQueueWriteCursor uart mod ?c = (r' + (length q - 1)) mod ?c"
  proof -
    have "(r' + (length q - 1)) mod ?c = ((?r + 1) + (length q - 1)) mod ?c"
      unfolding r' by (simp add: mod_add_left_eq)
    also have "(?r + 1) + (length q - 1) = ?r + length q" using pos by simp
    finally show ?thesis using wm by simp
  qed
  have cells: "(rxQueue uart)[?r := 0x00] ! ((r' + i) mod ?c) = tl q ! i"
    if i: "i < length q - 1" for i
  proof -
    have idx: "(r' + i) mod ?c = (?r + (i + 1)) mod ?c"
      unfolding r' by (simp add: mod_add_left_eq)
    from i lq have "0 < i + 1" "i + 1 < ?c" by simp_all
    then have "(?r + 0) mod ?c \<noteq> (?r + (i + 1)) mod ?c" by (intro mod_shift_neq)
    with rc have "?r \<noteq> (?r + (i + 1)) mod ?c" by simp
    then have "(rxQueue uart)[?r := 0x00] ! ((?r + (i + 1)) mod ?c)
                 = rxQueue uart ! ((?r + (i + 1)) mod ?c)" by simp
    also from i have "\<dots> = q ! (i + 1)" by (intro queue_holds_nth [OF h]) simp
    also from i have "\<dots> = tl q ! i" by (simp add: nth_tl)
    finally show ?thesis unfolding idx .
  qed
  have "map (\<lambda>i. (rxQueue uart)[?r := 0x00] ! ((r' + i) mod ?c)) [0..<length q - 1] = tl q"
    by (rule nth_equalityI) (simp_all add: cells)
  moreover have "r' < ?c" unfolding r' using rc by simp
  ultimately show "queue_holds k (snd (UARTGetNextByte k uart)) (tl q)"
    unfolding u' queue_holds_def using len lq wc wm' by simp
qed

lemma run_uart_fifo:
  assumes "queue_holds k uart q" and "fifo_ok k ops (length q)"
  shows "fst (run_uart k ops uart) = fifo_run ops q"
  using assms
proof (induction ops arbitrary: uart q)
  case Nil
  then show ?case by simp
next
  case (Cons op ops)
  show ?case
  proof (cases op)
    case (Receive pending)
    with Cons.prems(2) have room: "length q + length (accepted pending) \<le> UART_RX_QUEUE_SIZE k"
      and ok: "fifo_ok k ops (length (q @ accepted pending))" by simp_all
    from Cons.IH [OF queue_holds_receive [OF Cons.prems(1) room] ok] Receive
    show ?thesis by simp
  next
    case Take
    with Cons.prems(2) have ne: "q \<noteq> []" and ok: "fifo_ok k ops (length (tl q))" by auto
    obtain b uart1 where g: "UARTGetNextByte k uart = (b, uart1)" by fastforce
    from queue_holds_take [OF Cons.prems(1) ne] g
    have b: "b = hd q" and h1: "queue_holds k uart1 (tl q)" by simp_all
    from Cons.IH [OF h1 ok] Take g b show ?thesis by (auto split: prod.splits)
  qed
qed

lemma reset_queue_holds:
  assumes "length (rxQueue uart) = UART_RX_QUEUE_SIZE k" and "0 < UART_RX_QUEUE_SIZE k"
  shows "queue_holds k (UARTResetRxQueue uart) []"
    and "cursors_in_range k (UARTResetRxQueue uart)"
  using assms by (simp_all add: queue_holds_def cursors_in_range_def UARTResetRxQueue_def)

text \<open>
  Claim C8 (circular-buffer wraparound), as amended. From a reset queue of positive
  capacity, after every interleaving of \<^verbatim>\<open>UARTReadData\<close> and \<^verbatim>\<open>UARTGetNextByte\<close>
  (so also after each of its prefixes) the occupancy is at most the capacity plus 1, the
  read cursor is below the capacity and the write cursor is at most the capacity (it
  equals the capacity once the last cell is filled and wraps on the next accepted byte).
  If the interleaving never takes from an empty queue and never holds more bytes than the
  capacity, the bytes taken are exactly the accepted bytes, in arrival order.
\<close>

theorem queue_wraparound:
  assumes "length (rxQueue uart) = UART_RX_QUEUE_SIZE k" and "0 < UART_RX_QUEUE_SIZE k"
  shows "(case run_uart k ops (UARTResetRxQueue uart) of
            (taken, uart') \<Rightarrow>
              rxQueueSize uart' \<le> UART_RX_QUEUE_SIZE k + 1
              \<and> rxQueueReadCursor uart' < UART_RX_QUEUE_SIZE k
              \<and> rxQueueWriteCursor uart' \<le> UART_RX_QUEUE_SIZE k
              \<and> (fifo_ok k ops 0 \<longrightarrow> taken = fifo_run ops []))"
proof -
  from cursors_in_range_run [OF reset_queue_holds(2) [OF assms], of ops]
  have "cursors_in_range k (snd (run_uart k ops (UARTResetRxQueue uart)))" .
  moreover have "fst (run_uart k ops (UARTResetRxQueue uart)) = fifo_run ops []"
    if "fifo_ok k ops 0"
    using run_uart_fifo [OF reset_queue_holds(1) [OF assms], of ops] that by simp
  ultimately show ?thesis by (auto simp: cursors_in_range_def split: prod.splits)
qed

text \<open>
  The amended C8 on a queue of two cells: four bytes pass through it in order.
\<close>

theorem queue_wraparound_witness:
  "fst (run_uart small_build
          [Receive (on_wire [0x01, 0x02]), Take, Take,
           Receive (on_wire [0x03, 0x04]), Take, Take]
          (UARTResetRxQueue (empty_uart small_build)))
     = [0x01, 0x02, 0x03, 0x04]"
proof -
  let ?ops = "[Receive (on_wire [0x01, 0x02]), Take, Take,
               Receive (on_wire [0x03, 0x04]), Take, Take]"
  have l: "length (rxQueue (empty_uart small_build)) = UART_RX_QUEUE_SIZE small_build"
    by (simp add: empty_uart_def)
  have c: "0 < UART_RX_QUEUE_SIZE small_build" by (simp add: small_build_def)
  have ok: "fifo_ok small_build ?ops 0" by code_simp
  have fr: "fifo_run ?ops [] = [0x01, 0x02, 0x03, 0x04]" by code_simp
  obtain taken uart' where
    r: "run_uart small_build ?ops (UARTResetRxQueue (empty_uart small_build)) = (taken, uart')"
    by fastforce
  from queue_wraparound [OF l c, of ?ops] have "fifo_ok small_build ?ops 0 \<longrightarrow> taken = fifo_run ?ops []"
    unfolding r by (simp only: prod.case) blast
  with ok fr have "taken = [0x01, 0x02, 0x03, 0x04]" by (simp only:)
  then show ?thesis unfolding r by (simp only: fst_conv)
qed

lemma write_cursor_advances:
  assumes "rxQueueWriteCursor uart = rxQueueSize uart"
    and "rxQueueSize uart + length bytes \<le> UART_RX_QUEUE_SIZE k"
  shows "rxQueueWriteCursor (UARTReadData k (on_wire bytes) uart) = rxQueueSize uart + length bytes"
  using assms
proof (induction bytes arbitrary: uart)
  case Nil
  then show ?case by (simp add: on_wire_def)
next
  case (Cons b bytes)
  let ?u = "uart\<lparr>rxQueue := (rxQueue uart)[rxQueueWriteCursor uart := b],
                  rxQueueWriteCursor := rxQueueWriteCursor uart + 1,
                  rxQueueSize := rxQueueSize uart + 1,
                  rxLastTimestamp := 0\<rparr>"
  from Cons.prems have lt: "rxQueueSize uart < UART_RX_QUEUE_SIZE k" by simp
  have e: "(0x0001 :: 16 word) AND 0xE = 0" by simp
  have step: "UARTReadData k (on_wire (b # bytes)) uart = UARTReadData k (on_wire bytes) ?u"
    using lt Cons.prems(1) by (simp add: on_wire_def e Let_def)
  have "rxQueueWriteCursor (UARTReadData k (on_wire bytes) ?u) = rxQueueSize ?u + length bytes"
    by (rule Cons.IH) (use Cons.prems in simp_all)
  then show ?case unfolding step by simp
qed

lemma length_replicate_255: "length (replicate 255 (0x55 :: 8 word)) = 255"
  by (rule length_replicate)

lemma write_cursor_at_capacity:
  "rxQueueWriteCursor (UARTReadData spec_build (on_wire (replicate 255 0x55)) (empty_uart spec_build))
     = UART_RX_QUEUE_SIZE spec_build"
proof -
  have s0: "rxQueueSize (empty_uart spec_build) = 0" "rxQueueWriteCursor (empty_uart spec_build) = 0"
    by (simp_all add: empty_uart_def)
  have c: "UART_RX_QUEUE_SIZE spec_build = 255" by (simp add: spec_build_def)
  have "rxQueueWriteCursor (UARTReadData spec_build (on_wire (replicate 255 0x55)) (empty_uart spec_build))
          = rxQueueSize (empty_uart spec_build) + length (replicate 255 (0x55 :: 8 word))"
    by (rule write_cursor_advances) (simp_all only: s0 c length_replicate_255 add_0 order_refl)
  then show ?thesis by (simp only: s0 c length_replicate_255 add_0)
qed

text \<open>
  C8 as stated fails. After 255 accepted bytes the write cursor of a queue of capacity
  255 is 255, not below the capacity. A take from an empty queue returns a zero that was
  never written and moves the read cursor past the cell the next byte goes to, so the
  following take misses that byte. And a queue of two cells accepts a third byte over the
  first unread one: of the bytes 01 02 03 the takes return 03 02 00.
\<close>

theorem queue_wraparound_counterexample:
  "rxQueueWriteCursor (UARTReadData spec_build (on_wire (replicate 255 0x55)) (empty_uart spec_build))
     = UART_RX_QUEUE_SIZE spec_build
   \<and> fst (run_uart spec_build [Take, Receive (on_wire [0x41]), Take] (empty_uart spec_build))
       = [0x00, 0x00]
   \<and> fst (run_uart small_build [Receive (on_wire [0x01, 0x02, 0x03]), Take, Take, Take]
            (empty_uart small_build))
       = [0x03, 0x02, 0x00]"
proof -
  have b: "fst (run_uart spec_build [Take, Receive (on_wire [0x41]), Take] (empty_uart spec_build))
       = [0x00, 0x00]"
    by code_simp
  have c: "fst (run_uart small_build [Receive (on_wire [0x01, 0x02, 0x03]), Take, Take, Take]
            (empty_uart small_build))
       = [0x03, 0x02, 0x00]"
    by code_simp
  from write_cursor_at_capacity b c show ?thesis by (intro conjI)
qed

section \<open>Packet codec: frames sent and frames decoded\<close>

lemma txWire_empty_uart: "txWire (empty_uart k) = []"
  by (simp add: empty_uart_def)

lemma upt3: "[0..<3] = [0, 1, 2]"
  by code_simp

lemma rep3: "replicate 3 (0 :: 8 word) = [0, 0, 0]"
  by code_simp

lemma response_frame:
  assumes "PROTOCOL_DATA_INDEX_BEGIN k = 2"
  shows "txWire (ProtocolSendPacket k uart cmd dat 0) = txWire uart @ [cmd, 3, cmd XOR 3]"
proof -
  have l: "(1 :: 8 word) + 2 = 3" by simp
  have u: "unat (3 :: 8 word) = 3" by simp
  have p: "[0 :: 8 word, 0, 0][0 := cmd, 1 := 3, 2 := 0, 3 - 1 := cmd XOR 3] = [cmd, 3, cmd XOR 3]"
    by (simp add: numeral_2_eq_2)
  show ?thesis
    unfolding ProtocolSendPacket_def UARTSendData_def Let_def assms
    by (simp only: if_True l u upt3 rep3 p fold_simps prod.case refl simp_thms)
       (simp add: numeral_2_eq_2)
qed

text \<open>
  Claim C4 (encoder output) at a failing input. For command 01 and the payload AA,
  \<^verbatim>\<open>ProtocolSendPacket\<close> transmits 01 03 A8: the checksum is stored at
  \<^verbatim>\<open>packet[length - 1]\<close>, the cell of the last payload byte, so AA is not sent. For no
  data it transmits 01 03 02, without the zero byte stored just before.
\<close>

theorem send_packet_overwrites_last_byte:
  "txWire (ProtocolSendPacket spec_build (empty_uart spec_build) 0x01 [0xAA] 1) = [0x01, 0x03, 0xA8]
   \<and> txWire (ProtocolSendPacket spec_build (empty_uart spec_build) 0x01 [] 0) = [0x01, 0x03, 0x02]"
  by code_simp

text \<open>
  Claim C1 (round-trip framing) at a failing input. The frame encoded for command 01 and
  the payload 01 decodes with status BAD, whether the decoder's
  \<^verbatim>\<open>PROTOCOL_CONTROL_PACKET_SIZE\<close> is 2 or 3.
\<close>

theorem loopback_rejected:
  "status (fst (loopback spec_build 0x01 [0x01])) = PROTOCOL_PACKET_STATUS_BAD
   \<and> status (fst (loopback (spec_build\<lparr>PROTOCOL_CONTROL_PACKET_SIZE := 3\<rparr>) 0x01 [0x01]))
       = PROTOCOL_PACKET_STATUS_BAD"
  by code_simp

text \<open>
  Claim C6 (partial-frame stability). When fewer than 2 bytes are buffered, or the
  occupancy differs from the length byte at offset 1, \<^verbatim>\<open>ProtocolProcessPacket\<close> returns
  its packet object with status INCOMPLETE and the transport exactly as it was.
\<close>

theorem partial_frame_stability:
  "rxQueueSize uart < 2 \<or> rxQueueSize uart \<noteq> unat (UARTGetOffsetByte k uart 1) \<Longrightarrow>
   ProtocolProcessPacket k uninit uart
     = (uninit\<lparr>status := PROTOCOL_PACKET_STATUS_INCOMPLETE\<rparr>, uart)"
  by (auto simp: ProtocolProcessPacket_def Let_def)

text \<open>
  C6 at the example build: three bytes are buffered and the length byte says five.
\<close>

theorem partial_frame_stability_witness:
  "ProtocolProcessPacket spec_build blank_packet
     (UARTReadData spec_build (on_wire [0x01, 0x05, 0x07]) (empty_uart spec_build))
   = (blank_packet\<lparr>status := PROTOCOL_PACKET_STATUS_INCOMPLETE\<rparr>,
      UARTReadData spec_build (on_wire [0x01, 0x05, 0x07]) (empty_uart spec_build))"
proof -
  let ?u = "UARTReadData spec_build (on_wire [0x01, 0x05, 0x07]) (empty_uart spec_build)"
  have "rxQueueSize ?u = 3" by code_simp
  moreover have "UARTGetOffsetByte spec_build ?u 1 = 5" by code_simp
  ultimately have "rxQueueSize ?u < 2 \<or> rxQueueSize ?u \<noteq> unat (UARTGetOffsetByte spec_build ?u 1)"
    by (simp only:) simp
  then show ?thesis by (rule partial_frame_stability)
qed

section \<open>Flash programming engine: erase-all\<close>

lemma dword_writes_append [simp]: "dword_writes (xs @ ys) = dword_writes xs @ dword_writes ys"
  by (induction xs rule: dword_writes.induct) auto

lemma dword_writes_erases [simp]: "dword_writes (map ErasePage ps) = []"
  by (induction ps) auto

lemma FlashWriteDWORDAddress_oplog:
  "oplog (snd (FlashWriteDWORDAddress a d1 d2 f)) = oplog f @ [WriteDWORD a d1 d2]"
  by (simp add: FlashWriteDWORDAddress_def)

lemma erase_loop_runs:
  assumes s: "0 < unat (FLASH_ROW k * 16)"
    and nof: "unat (BOOTLOADER_APPLICATION_END k) + unat (FLASH_ROW k * 16) < 2 ^ 32"
    and fuel: "unat (BOOTLOADER_APPLICATION_END k) < unat a + n * unat (FLASH_ROW k * 16)"
  shows "\<exists>f' ps. erase_loop k (Suc n) a f = Some f'
           \<and> oplog f' = oplog f @ map ErasePage ps
           \<and> wfail f' = wfail f
           \<and> (\<forall>p \<in> set ps. (p < BOOTLOADER_BOOTLOADER_START k \<or> BOOTLOADER_APPLICATION_START k \<le> p)
                  \<and> unat a \<le> unat p
                  \<and> unat p mod unat (FLASH_ROW k * 16) = unat a mod unat (FLASH_ROW k * 16))
           \<and> (\<forall>x. unat x div unat (FLASH_ROW k * 16) < unat a div unat (FLASH_ROW k * 16)
                  \<longrightarrow> cells f' x = cells f x)"
  using fuel
proof (induction n arbitrary: a f)
  case 0
  then have "\<not> a \<le> BOOTLOADER_APPLICATION_END k" by (simp add: word_le_nat_alt)
  then show ?case by simp
next
  case (Suc n)
  let ?s = "FLASH_ROW k * 16"
  show ?case
  proof (cases "a \<le> BOOTLOADER_APPLICATION_END k")
    case False
    then show ?thesis by simp
  next
    case True
    then have le: "unat a \<le> unat (BOOTLOADER_APPLICATION_END k)" by (simp add: word_le_nat_alt)
    with nof have ua: "unat (a + ?s) = unat a + unat ?s"
      by (simp add: unat_add_lem [THEN iffD1])
    define f1 where "f1 = (if a < BOOTLOADER_BOOTLOADER_START k \<or> a \<ge> BOOTLOADER_APPLICATION_START k
                           then FlashErasePage k a f else f)"
    have "unat (BOOTLOADER_APPLICATION_END k) < unat (a + ?s) + n * unat ?s"
      using Suc.prems ua by simp
    from Suc.IH [OF this, of f1] obtain f' ps where
      r: "erase_loop k (Suc n) (a + ?s) f1 = Some f'"
      and o: "oplog f' = oplog f1 @ map ErasePage ps"
      and w: "wfail f' = wfail f1"
      and p: "\<forall>p \<in> set ps. (p < BOOTLOADER_BOOTLOADER_START k \<or> BOOTLOADER_APPLICATION_START k \<le> p)
                  \<and> unat (a + ?s) \<le> unat p \<and> unat p mod unat ?s = unat (a + ?s) mod unat ?s"
      and c: "\<forall>x. unat x div unat ?s < unat (a + ?s) div unat ?s \<longrightarrow> cells f' x = cells f1 x"
      by blast
    define ps1 where "ps1 = (if a < BOOTLOADER_BOOTLOADER_START k \<or> a \<ge> BOOTLOADER_APPLICATION_START k
                           then [a] else [])"
    have o1: "oplog f1 = oplog f @ map ErasePage ps1"
      by (simp add: f1_def ps1_def FlashErasePage_def)
    have w1: "wfail f1 = wfail f" by (simp add: f1_def FlashErasePage_def)
    have c1: "unat x div unat ?s < unat a div unat ?s \<Longrightarrow> cells f1 x = cells f x" for x
      by (simp add: f1_def FlashErasePage_def)
    have dv: "unat a div unat ?s \<le> unat (a + ?s) div unat ?s"
      unfolding ua by (rule div_le_mono) simp
    have "erase_loop k (Suc (Suc n)) a f = Some f'"
      using True r by (simp add: f1_def)
    moreover have "oplog f' = oplog f @ map ErasePage (ps1 @ ps)" using o o1 by simp
    moreover have "wfail f' = wfail f" using w w1 by simp
    moreover have "\<forall>p \<in> set (ps1 @ ps). (p < BOOTLOADER_BOOTLOADER_START k \<or> BOOTLOADER_APPLICATION_START k \<le> p)
                  \<and> unat a \<le> unat p \<and> unat p mod unat ?s = unat a mod unat ?s"
    proof
      fix q assume "q \<in> set (ps1 @ ps)"
      then consider "q \<in> set ps1" | "q \<in> set ps" by auto
      then show "(q < BOOTLOADER_BOOTLOADER_START k \<or> BOOTLOADER_APPLICATION_START k \<le> q)
                  \<and> unat a \<le> unat q \<and> unat q mod unat ?s = unat a mod unat ?s"
      proof cases
        case 1
        then have "q = a" and "a < BOOTLOADER_BOOTLOADER_START k \<or> a \<ge> BOOTLOADER_APPLICATION_START k"
          by (simp_all add: ps1_def split: if_splits)
        then show ?thesis by simp
      next
        case 2
        with p have a1: "q < BOOTLOADER_BOOTLOADER_START k \<or> BOOTLOADER_APPLICATION_START k \<le> q"
          and a2: "unat (a + ?s) \<le> unat q" and a3: "unat q mod unat ?s = unat (a + ?s) mod unat ?s"
          by blast+
        from a2 have "unat a \<le> unat q" unfolding ua by linarith
        moreover from a3 have "unat q mod unat ?s = unat a mod unat ?s" unfolding ua by simp
        ultimately show ?thesis using a1 by blast
      qed
    qed
    moreover have "\<forall>x. unat x div unat ?s < unat a div unat ?s \<longrightarrow> cells f' x = cells f x"
    proof (intro allI impI)
      fix x :: "32 word" assume h: "unat x div unat ?s < unat a div unat ?s"
      with dv have "unat x div unat ?s < unat (a + ?s) div unat ?s" by linarith
      with c have "cells f' x = cells f1 x" by blast
      with c1 [OF h] show "cells f' x = cells f x" by simp
    qed
    ultimately show ?thesis by blast
  qed
qed



lemma ProtocolFlashErase_runs:
  assumes s: "0 < unat (FLASH_ROW k * 16)"
    and nof: "unat (BOOTLOADER_APPLICATION_END k) + unat (FLASH_ROW k * 16) < 2 ^ 32"
    and fuel: "unat (BOOTLOADER_APPLICATION_END k) < fuel * unat (FLASH_ROW k * 16)"
  shows "\<exists>f' ps. ProtocolFlashErase k fuel f = Some f'
           \<and> oplog f' = oplog f @ ErasePage 0
                 # WriteDWORD 0 (0x40000 + BOOTLOADER_BOOTLOADER_START k) 0 # map ErasePage ps
           \<and> (0 \<notin> wfail f \<longrightarrow> cells f' 0 = 0x40000 + BOOTLOADER_BOOTLOADER_START k)
           \<and> (0 \<in> wfail f \<longrightarrow> cells f' 0 = 0xFFFFFF)
           \<and> (\<forall>p \<in> set ps. (p < BOOTLOADER_BOOTLOADER_START k \<or> BOOTLOADER_APPLICATION_START k \<le> p)
                  \<and> unat (FLASH_ROW k * 16) dvd unat p)"
proof -
  let ?s = "FLASH_ROW k * 16"
  let ?ri = "0x40000 + BOOTLOADER_BOOTLOADER_START k"
  let ?BS = "BOOTLOADER_BOOTLOADER_START k"
  let ?AS = "BOOTLOADER_APPLICATION_START k"
  define f1 where "f1 = FlashErasePage k 0 f"
  define f2 where "f2 = snd (FlashWriteDWORDAddress 0 ?ri 0 f1)"
  from fuel obtain n where n: "fuel = Suc n" by (cases fuel) auto
  have w1: "wfail f1 = wfail f" by (simp add: f1_def FlashErasePage_def)
  have c2: "0 \<notin> wfail f \<Longrightarrow> cells f2 0 = ?ri"
    using w1 by (simp add: f2_def FlashWriteDWORDAddress_def)
  have c2f: "0 \<in> wfail f \<Longrightarrow> cells f2 0 = 0xFFFFFF"
    using w1 by (simp add: f2_def f1_def FlashWriteDWORDAddress_def FlashErasePage_def)
  have o2: "oplog f2 = oplog f @ [ErasePage 0, WriteDWORD 0 ?ri 0]"
    by (simp add: f2_def f1_def FlashWriteDWORDAddress_oplog FlashErasePage_def)
  have "unat (BOOTLOADER_APPLICATION_END k) < unat ?s + n * unat ?s" using fuel n by simp
  from erase_loop_runs [OF s nof this, of f2] obtain f' ps where
    r: "erase_loop k (Suc n) ?s f2 = Some f'"
    and o: "oplog f' = oplog f2 @ map ErasePage ps"
    and p: "\<forall>p \<in> set ps. (p < ?BS \<or> ?AS \<le> p) \<and> unat ?s \<le> unat p
              \<and> unat p mod unat ?s = unat ?s mod unat ?s"
    and c: "\<forall>x. unat x div unat ?s < unat ?s div unat ?s \<longrightarrow> cells f' x = cells f2 x"
    by blast
  have run: "ProtocolFlashErase k fuel f = Some f'"
    using r by (simp add: ProtocolFlashErase_def n f1_def f2_def)
  have "unat (0 :: 32 word) div unat ?s < unat ?s div unat ?s" using s by simp
  with c have "cells f' 0 = cells f2 0" by metis
  with c2 c2f have c0: "0 \<notin> wfail f \<longrightarrow> cells f' 0 = ?ri"
    and c0f: "0 \<in> wfail f \<longrightarrow> cells f' 0 = 0xFFFFFF" by simp_all
  have o': "oplog f' = oplog f @ ErasePage 0 # WriteDWORD 0 ?ri 0 # map ErasePage ps"
    using o o2 by simp
  have "\<forall>p \<in> set ps. (p < ?BS \<or> ?AS \<le> p) \<and> unat ?s dvd unat p"
  proof
    fix q assume "q \<in> set ps"
    with p have "q < ?BS \<or> ?AS \<le> q" and "unat q mod unat ?s = unat ?s mod unat ?s" by blast+
    then show "(q < ?BS \<or> ?AS \<le> q) \<and> unat ?s dvd unat q" by (simp add: dvd_eq_mod_eq_0)
  qed
  with run c0 c0f o' show ?thesis by blast
qed

lemma spec_build_erase_terminates:
  "0 < unat (FLASH_ROW spec_build * 16)"
  "unat (BOOTLOADER_APPLICATION_END spec_build) + unat (FLASH_ROW spec_build * 16) < 2 ^ 32"
  "unat (BOOTLOADER_APPLICATION_END spec_build) < 11 * unat (FLASH_ROW spec_build * 16)"
  by (simp_all add: spec_build_def)




section \<open>Flash programming engine: the stride loop\<close>






text \<open>
  Claim C9 (payload access in the stride loop) at a failing input. For a request to
  address 8 whose \<^verbatim>\<open>dataSize\<close> is 4 (three address bytes and one data byte) the loop
  is entered with index 3, which is below \<^verbatim>\<open>dataSize\<close>, and the write stride reads
  \<^verbatim>\<open>packet->data\<close> at the indices 3 to 8: the loop tests the first index of a stride
  only. The dual-word written at address 8 is the data byte AA followed by five cells
  that are not part of the payload.
\<close>

theorem payload_reads_past_dataSize:
  "(case ProtocolFlashWrite spec_build 5 (empty_uart spec_build) short_packet blank_nvm of
      None \<Rightarrow> False
    | Some (uart', f', rd) \<Rightarrow>
        rd = [0, 1, 2, 3, 4, 5, 6, 7, 8] \<and> dataSize short_packet = 4
        \<and> dword_writes (oplog f') = [(0x00000008, 0xAA0000, 0x000000)])"
  by code_simp

lemma scenario_strides:
  assumes "dataSize packet = 9"
    and "data packet = [0x00, 0x00, 0x00, 0xAA, 0xBB, 0xCC, 0xDD, 0xEE, 0xFF] @ rest"
  shows "word24 (data packet ! 0) (data packet ! 1) (data packet ! 2) = 0"
    and "flash_write_loop k (Suc (Suc (Suc n))) packet 0 3 1 f rd = Some (1, f, rd)"
  using assms by (simp_all add: word24_def protected_address_def)

lemma scenario_run:
  assumes sz: "dataSize packet = 9"
    and dt: "data packet = [0x00, 0x00, 0x00, 0xAA, 0xBB, 0xCC, 0xDD, 0xEE, 0xFF] @ rest"
    and s: "0 < unat (FLASH_ROW k * 16)"
    and nof: "unat (BOOTLOADER_APPLICATION_END k) + unat (FLASH_ROW k * 16) < 2 ^ 32"
    and fuel: "unat (BOOTLOADER_APPLICATION_END k) < fuel * unat (FLASH_ROW k * 16)"
    and fuel3: "3 \<le> fuel"
  shows "\<exists>f1. ProtocolFlashErase k fuel f = Some f1
           \<and> dword_writes (oplog f1)
               = dword_writes (oplog f) @ [(0, 0x40000 + BOOTLOADER_BOOTLOADER_START k, 0)]
           \<and> ProtocolFlashWrite k fuel uart packet f
               = Some (ProtocolSendPacket k uart (PROTOCOL_CMD_WRITE_DATA_RESPONSE_OK k) [] 0,
                       f1, [0, 1, 2])"
proof -
  from ProtocolFlashErase_runs [OF s nof fuel, of f] obtain f1 ps where
    run: "ProtocolFlashErase k fuel f = Some f1"
    and o: "oplog f1 = oplog f @ ErasePage 0
              # WriteDWORD 0 (0x40000 + BOOTLOADER_BOOTLOADER_START k) 0 # map ErasePage ps"
    by blast
  from fuel3 obtain m where "fuel = 3 + m" using le_Suc_ex by blast
  then obtain n where n: "fuel = Suc (Suc (Suc n))" by (simp add: numeral_3_eq_3)
  have lp: "flash_write_loop k fuel packet 0 3 1 f1 [0, 1, 2] = Some (1, f1, [0, 1, 2])"
    unfolding n by (rule scenario_strides(2) [OF sz dt])
  have "ProtocolFlashWrite k fuel uart packet f
          = Some (ProtocolSendPacket k uart (PROTOCOL_CMD_WRITE_DATA_RESPONSE_OK k) [] 0,
                  f1, [0, 1, 2])"
    unfolding ProtocolFlashWrite_def Let_def scenario_strides(1) [OF sz dt]
    by (simp add: run lp del: One_nat_def)
  moreover have "dword_writes (oplog f1)
      = dword_writes (oplog f) @ [(0, 0x40000 + BOOTLOADER_BOOTLOADER_START k, 0)]"
    using o by simp
  ultimately show ?thesis using run by blast
qed

text \<open>
  Claim C2 (end-to-end write scenario), as amended. For a packet of 9 payload bytes, address
  bytes 00 00 00 and data bytes AA BB CC DD EE FF, \<^verbatim>\<open>ProtocolFlashWrite\<close> performs
  Erase-all, whose rewrite of the reset vector at address 0 is the only dual-word write:
  the six data bytes are two words aimed at the addresses 0 and 2, both below 4, so both
  strides are skipped, nothing is written at address 4 and the memory is as Erase-all left
  it. The response is the one \<^verbatim>\<open>ProtocolSendPacket\<close> builds for
  \<^verbatim>\<open>PROTOCOL_CMD_WRITE_DATA_RESPONSE_OK\<close> with no data. The hypotheses on the page size
  and the fuel are those under which Erase-all returns.
\<close>

theorem write_scenario:
  assumes "dataSize packet = 9"
    and "data packet = [0x00, 0x00, 0x00, 0xAA, 0xBB, 0xCC, 0xDD, 0xEE, 0xFF] @ rest"
    and "0 < unat (FLASH_ROW k * 16)"
    and "unat (BOOTLOADER_APPLICATION_END k) + unat (FLASH_ROW k * 16) < 2 ^ 32"
    and "unat (BOOTLOADER_APPLICATION_END k) < fuel * unat (FLASH_ROW k * 16)"
    and "3 \<le> fuel"
  shows "\<exists>f1. ProtocolFlashErase k fuel f = Some f1
           \<and> dword_writes (oplog f1)
               = dword_writes (oplog f) @ [(0, 0x40000 + BOOTLOADER_BOOTLOADER_START k, 0)]
           \<and> ProtocolFlashWrite k fuel uart packet f
               = Some (ProtocolSendPacket k uart (PROTOCOL_CMD_WRITE_DATA_RESPONSE_OK k) [] 0,
                       f1, [0, 1, 2])"
  using assms by (rule scenario_run)

lemma scenario_packet_shape:
  "dataSize scenario_packet = 9"
  "data scenario_packet = [0x00, 0x00, 0x00, 0xAA, 0xBB, 0xCC, 0xDD, 0xEE, 0xFF] @ replicate 246 0"
  by (simp_all add: scenario_packet_def)

text \<open>
  The hypotheses of the amended C2 hold of the example build, with fuel 11.
\<close>

theorem write_scenario_witness:
  "\<exists>f1. ProtocolFlashErase spec_build 11 blank_nvm = Some f1
           \<and> dword_writes (oplog f1)
               = dword_writes (oplog blank_nvm) @ [(0, 0x40000 + BOOTLOADER_BOOTLOADER_START spec_build, 0)]
           \<and> ProtocolFlashWrite spec_build 11 (empty_uart spec_build) scenario_packet blank_nvm
               = Some (ProtocolSendPacket spec_build (empty_uart spec_build)
                         (PROTOCOL_CMD_WRITE_DATA_RESPONSE_OK spec_build) [] 0, f1, [0, 1, 2])"
  by (rule write_scenario [OF scenario_packet_shape spec_build_erase_terminates]) simp

text \<open>
  C2 as stated fails: on the scenario's packet the only dual-word write is the one at
  address 0 (none at address 4), and the response frame is 04 03 07: command, length 3 and
  checksum, with no zero data byte.
\<close>

theorem write_scenario_counterexample:
  "(case ProtocolFlashWrite spec_build 11 (empty_uart spec_build) scenario_packet blank_nvm of
      None \<Rightarrow> False
    | Some (uart', f', rd) \<Rightarrow>
        dword_writes (oplog f') = [(0x00000000, 0x41000, 0x00000000)]
        \<and> txWire uart' = [0x04, 0x03, 0x07])"
proof -
  from scenario_run [OF scenario_packet_shape spec_build_erase_terminates,
                     where uart = "empty_uart spec_build" and f = blank_nvm]
  obtain f1 where
    w: "dword_writes (oplog f1)
          = dword_writes (oplog blank_nvm) @ [(0, 0x40000 + BOOTLOADER_BOOTLOADER_START spec_build, 0)]"
    and r: "ProtocolFlashWrite spec_build 11 (empty_uart spec_build) scenario_packet blank_nvm
          = Some (ProtocolSendPacket spec_build (empty_uart spec_build)
                    (PROTOCOL_CMD_WRITE_DATA_RESPONSE_OK spec_build) [] 0, f1, [0, 1, 2])"
    by auto
  have b: "PROTOCOL_DATA_INDEX_BEGIN spec_build = 2" by (simp add: spec_build_def)
  have "txWire (ProtocolSendPacket spec_build (empty_uart spec_build)
                    (PROTOCOL_CMD_WRITE_DATA_RESPONSE_OK spec_build) [] 0) = [0x04, 0x03, 0x07]"
    unfolding response_frame [OF b] by (simp add: spec_build_def txWire_empty_uart)
  moreover from w have "dword_writes (oplog f1) = [(0x00000000, 0x41000, 0x00000000)]"
    by (simp add: blank_nvm_def spec_build_def)
  ultimately show ?thesis unfolding r by simp
qed

section \<open>Serial-number provisioning: one-time write\<close>

lemma sn_bits_zero:
  "push_bit 8 (ucast (x :: 8 word) :: 16 word) OR (ucast (y :: 8 word) AND 0xFF) = 0
     \<longleftrightarrow> x = 0 \<and> y = 0"
proof
  assume h: "push_bit 8 (ucast x :: 16 word) OR (ucast y AND 0xFF) = 0"
  have m: "(0xFF :: 16 word) = mask 8" by (simp add: mask_eq_exp_minus_1)
  from h have h1: "push_bit 8 (ucast x :: 16 word) = 0" and h2: "(ucast y :: 16 word) AND mask 8 = 0"
    by (simp_all add: or_eq_0_iff m)
  have "x = 0"
  proof (rule bit_eqI)
    fix n assume "possible_bit TYPE(8 word) n"
    then have n: "n < 8" by (simp add: possible_bit_word)
    from h1 have "bit (push_bit 8 (ucast x :: 16 word)) (n + 8) = False" by simp
    with n show "bit x n = bit (0 :: 8 word) n" by (simp add: bit_simps)
  qed
  moreover have "y = 0"
  proof (rule bit_eqI)
    fix n assume "possible_bit TYPE(8 word) n"
    then have n: "n < 8" by (simp add: possible_bit_word)
    from h2 have "bit ((ucast y :: 16 word) AND mask 8) n = False" by simp
    with n show "bit y n = bit (0 :: 8 word) n" by (simp add: bit_simps)
  qed
  ultimately show "x = 0 \<and> y = 0" by simp
qed simp

lemma serial_number_zero_iff:
  "serial_number e = 0 \<longleftrightarrow> e CONFIG_SN_MSB = 0 \<and> e CONFIG_SN_LSB = 0"
  by (simp add: serial_number_def EEPROMReadByte_def sn_bits_zero)

text \<open>
  Claim C7 (one-time serial provisioning), as amended. If the stored serial number is zero,
  \<^verbatim>\<open>ProtocolWriteSerialNumber\<close> writes the first two payload bytes to the two cells and
  responds \<^verbatim>\<open>PROTOCOL_CMD_WRITE_SN_RESPONSE_OK\<close>; if it is not zero, it leaves both cells
  unchanged and responds \<^verbatim>\<open>PROTOCOL_CMD_WRITE_SN_RESPONSE_ERR\<close>. So, when the two bytes of
  the first payload are not both zero, a second call with any payload \<open>q\<close> is answered with
  ERR and the cells keep the first payload.
\<close>

theorem serial_provisioning:
  "(serial_number e = 0 \<longrightarrow>
      ProtocolWriteSerialNumber k uart p e =
        (ProtocolSendPacket k uart (PROTOCOL_CMD_WRITE_SN_RESPONSE_OK k) [] 0,
         e(CONFIG_SN_MSB := data p ! 0, CONFIG_SN_LSB := data p ! 1)))
   \<and> (serial_number e \<noteq> 0 \<longrightarrow>
      ProtocolWriteSerialNumber k uart p e =
        (ProtocolSendPacket k uart (PROTOCOL_CMD_WRITE_SN_RESPONSE_ERR k) [] 0, e))
   \<and> (serial_number e = 0 \<and> (data p ! 0 \<noteq> 0 \<or> data p ! 1 \<noteq> 0) \<longrightarrow>
      (case ProtocolWriteSerialNumber k uart p e of (uart1, e1) \<Rightarrow>
         ProtocolWriteSerialNumber k uart1 q e1 =
           (ProtocolSendPacket k uart1 (PROTOCOL_CMD_WRITE_SN_RESPONSE_ERR k) [] 0, e1)
         \<and> e1 CONFIG_SN_MSB = data p ! 0 \<and> e1 CONFIG_SN_LSB = data p ! 1))"
proof -
  have wr: "serial_number e = 0 \<Longrightarrow>
      ProtocolWriteSerialNumber k uart p e =
        (ProtocolSendPacket k uart (PROTOCOL_CMD_WRITE_SN_RESPONSE_OK k) [] 0,
         e(CONFIG_SN_MSB := data p ! 0, CONFIG_SN_LSB := data p ! 1))" for uart p e
    by (simp add: ProtocolWriteSerialNumber_def EEPROMWriteByte_def)
  have rf: "serial_number e \<noteq> 0 \<Longrightarrow>
      ProtocolWriteSerialNumber k uart p e =
        (ProtocolSendPacket k uart (PROTOCOL_CMD_WRITE_SN_RESPONSE_ERR k) [] 0, e)" for uart p e
    by (simp add: ProtocolWriteSerialNumber_def)
  have "serial_number (e(CONFIG_SN_MSB := data p ! 0, CONFIG_SN_LSB := data p ! 1)) \<noteq> 0"
    if "data p ! 0 \<noteq> 0 \<or> data p ! 1 \<noteq> 0"
    using that by (simp add: serial_number_zero_iff)
  then show ?thesis by (simp add: wr rf)
qed

text \<open>
  The amended C7 at the example build: provisioning 12 34 into zeroed cells, and a second
  request 56 78.
\<close>

theorem serial_provisioning_witness:
  "ProtocolWriteSerialNumber spec_build (empty_uart spec_build) (sn_packet 0x12 0x34) blank_eeprom
     = (ProtocolSendPacket spec_build (empty_uart spec_build)
          (PROTOCOL_CMD_WRITE_SN_RESPONSE_OK spec_build) [] 0,
        blank_eeprom(CONFIG_SN_MSB := 0x12, CONFIG_SN_LSB := 0x34))
   \<and> ProtocolWriteSerialNumber spec_build (empty_uart spec_build) (sn_packet 0x56 0x78)
        (blank_eeprom(CONFIG_SN_MSB := 0x12, CONFIG_SN_LSB := 0x34))
     = (ProtocolSendPacket spec_build (empty_uart spec_build)
          (PROTOCOL_CMD_WRITE_SN_RESPONSE_ERR spec_build) [] 0,
        blank_eeprom(CONFIG_SN_MSB := 0x12, CONFIG_SN_LSB := 0x34))
   \<and> (case ProtocolWriteSerialNumber spec_build (empty_uart spec_build) (sn_packet 0x12 0x34) blank_eeprom of
        (uart1, e1) \<Rightarrow>
          ProtocolWriteSerialNumber spec_build uart1 (sn_packet 0x56 0x78) e1
            = (ProtocolSendPacket spec_build uart1 (PROTOCOL_CMD_WRITE_SN_RESPONSE_ERR spec_build) [] 0, e1)
          \<and> e1 CONFIG_SN_MSB = 0x12 \<and> e1 CONFIG_SN_LSB = 0x34)"
proof -
  have z: "serial_number blank_eeprom = 0"
    by (simp add: serial_number_zero_iff blank_eeprom_def)
  have nz: "serial_number (blank_eeprom(CONFIG_SN_MSB := 0x12, CONFIG_SN_LSB := 0x34)) \<noteq> 0"
    by (simp add: serial_number_zero_iff)
  have d: "data (sn_packet 0x12 0x34) ! 0 = 0x12" "data (sn_packet 0x12 0x34) ! 1 = 0x34"
    by (simp_all add: sn_packet_def)
  note first = serial_provisioning [of blank_eeprom spec_build "empty_uart spec_build"
                                       "sn_packet 0x12 0x34" "sn_packet 0x56 0x78"]
  note again = serial_provisioning [of "blank_eeprom(CONFIG_SN_MSB := 0x12, CONFIG_SN_LSB := 0x34)"
                                       spec_build "empty_uart spec_build" "sn_packet 0x56 0x78"
                                       "sn_packet 0x56 0x78"]
  from first [THEN conjunct1] z d
  have A: "ProtocolWriteSerialNumber spec_build (empty_uart spec_build) (sn_packet 0x12 0x34) blank_eeprom
     = (ProtocolSendPacket spec_build (empty_uart spec_build)
          (PROTOCOL_CMD_WRITE_SN_RESPONSE_OK spec_build) [] 0,
        blank_eeprom(CONFIG_SN_MSB := 0x12, CONFIG_SN_LSB := 0x34))"
    by simp
  from again [THEN conjunct2, THEN conjunct1] nz
  have B: "ProtocolWriteSerialNumber spec_build (empty_uart spec_build) (sn_packet 0x56 0x78)
        (blank_eeprom(CONFIG_SN_MSB := 0x12, CONFIG_SN_LSB := 0x34))
     = (ProtocolSendPacket spec_build (empty_uart spec_build)
          (PROTOCOL_CMD_WRITE_SN_RESPONSE_ERR spec_build) [] 0,
        blank_eeprom(CONFIG_SN_MSB := 0x12, CONFIG_SN_LSB := 0x34))"
    by simp
  from first [THEN conjunct2, THEN conjunct2] z d
  have C: "(case ProtocolWriteSerialNumber spec_build (empty_uart spec_build) (sn_packet 0x12 0x34) blank_eeprom of
        (uart1, e1) \<Rightarrow>
          ProtocolWriteSerialNumber spec_build uart1 (sn_packet 0x56 0x78) e1
            = (ProtocolSendPacket spec_build uart1 (PROTOCOL_CMD_WRITE_SN_RESPONSE_ERR spec_build) [] 0, e1)
          \<and> e1 CONFIG_SN_MSB = 0x12 \<and> e1 CONFIG_SN_LSB = 0x34)"
    by simp
  from A B C show ?thesis by (intro conjI)
qed

text \<open>
  C7 as stated fails: after provisioning 00 00 into zeroed cells, a second request 12 34 is
  answered with OK (opcode 0A in both frames) and replaces the stored value.
\<close>

theorem serial_provisioning_counterexample:
  "(case ProtocolWriteSerialNumber spec_build (empty_uart spec_build) (sn_packet 0x00 0x00) blank_eeprom of
      (uart1, e1) \<Rightarrow>
        (case ProtocolWriteSerialNumber spec_build uart1 (sn_packet 0x12 0x34) e1 of
           (uart2, e2) \<Rightarrow>
             txWire uart2 = [0x0A, 0x03, 0x09, 0x0A, 0x03, 0x09]
             \<and> e1 CONFIG_SN_MSB = 0x00 \<and> e1 CONFIG_SN_LSB = 0x00
             \<and> e2 CONFIG_SN_MSB = 0x12 \<and> e2 CONFIG_SN_LSB = 0x34))"
  by code_simp

text \<open>
  Claim C10 (a zero serial number is never permanent). If both cells read zero and the
  payload bytes are 00 00, \<^verbatim>\<open>ProtocolWriteSerialNumber\<close> responds
  \<^verbatim>\<open>PROTOCOL_CMD_WRITE_SN_RESPONSE_OK\<close>, the stored serial number is still zero, and a
  following call with any packet \<open>q\<close> writes its two bytes and responds OK again.
\<close>

theorem zero_serial_not_permanent:
  assumes "EEPROMReadByte e CONFIG_SN_MSB = 0" and "EEPROMReadByte e CONFIG_SN_LSB = 0"
    and "data p ! 0 = 0x00" and "data p ! 1 = 0x00"
  shows "(case ProtocolWriteSerialNumber k uart p e of (uart1, e1) \<Rightarrow>
           uart1 = ProtocolSendPacket k uart (PROTOCOL_CMD_WRITE_SN_RESPONSE_OK k) [] 0
           \<and> serial_number e1 = 0
           \<and> ProtocolWriteSerialNumber k uart1 q e1 =
               (ProtocolSendPacket k uart1 (PROTOCOL_CMD_WRITE_SN_RESPONSE_OK k) [] 0,
                e1(CONFIG_SN_MSB := data q ! 0, CONFIG_SN_LSB := data q ! 1)))"
proof -
  from assms(1,2) have z: "serial_number e = 0"
    by (simp add: serial_number_zero_iff EEPROMReadByte_def)
  have z1: "serial_number (e(CONFIG_SN_MSB := 0, CONFIG_SN_LSB := 0)) = 0"
    by (simp add: serial_number_zero_iff)
  show ?thesis using z z1 assms(3,4)
    by (simp add: ProtocolWriteSerialNumber_def EEPROMWriteByte_def)
qed

text \<open>
  C10 at the example build.
\<close>

theorem zero_serial_not_permanent_witness:
  "(case ProtocolWriteSerialNumber spec_build (empty_uart spec_build) (sn_packet 0x00 0x00) blank_eeprom of
      (uart1, e1) \<Rightarrow>
        uart1 = ProtocolSendPacket spec_build (empty_uart spec_build)
                  (PROTOCOL_CMD_WRITE_SN_RESPONSE_OK spec_build) [] 0
        \<and> serial_number e1 = 0
        \<and> ProtocolWriteSerialNumber spec_build uart1 (sn_packet 0x12 0x34) e1
            = (ProtocolSendPacket spec_build uart1 (PROTOCOL_CMD_WRITE_SN_RESPONSE_OK spec_build) [] 0,
               e1(CONFIG_SN_MSB := data (sn_packet 0x12 0x34) ! 0,
                  CONFIG_SN_LSB := data (sn_packet 0x12 0x34) ! 1)))"
proof -
  have a: "EEPROMReadByte blank_eeprom CONFIG_SN_MSB = 0" "EEPROMReadByte blank_eeprom CONFIG_SN_LSB = 0"
    by (simp_all add: EEPROMReadByte_def blank_eeprom_def)
  have d: "data (sn_packet 0x00 0x00) ! 0 = 0x00" "data (sn_packet 0x00 0x00) ! 1 = 0x00"
    by (simp_all add: sn_packet_def)
  from zero_serial_not_permanent [OF a d] show ?thesis .
qed

end
